theory Spec2Isabelle
  imports Main "HOL-Library.Word"
begin

section \<open>Bytes, JavaScript strings and platform errors\<close>

text \<open>
  The engine of \<^verbatim>\<open>src/lib/encryption.ts\<close> works on \<^verbatim>\<open>ArrayBuffer\<close>/\<^verbatim>\<open>Uint8Array\<close>
  values (sequences of 8-bit bytes) and on JavaScript strings (sequences of 16-bit code
  units). A rejected promise or a thrown exception is the left injection of a sum.
  The engine defines no error classes of its own: every failure is the
  \<^verbatim>\<open>DOMException\<close> raised by the platform function it calls, so the error type lists
  those names.
\<close>

type_synonym byte = "8 word"
type_synonym code_unit = "16 word"
type_synonym bytes = "byte list"
type_synonym js_string = "code_unit list"

datatype dom_error =
    InvalidCharacterError
  | DataError
  | OperationError
  | InvalidAccessError
  | SyntaxError
  | NotSupportedError

section \<open>The platform's base64 functions\<close>

text \<open>
  \<^verbatim>\<open>btoa\<close> and \<^verbatim>\<open>atob\<close> are not code of the engine but the browser's functions, modelled
  here as the HTML Standard defines them (forgiving-base64 encode and decode). \<^verbatim>\<open>btoa\<close> throws
  \<^verbatim>\<open>InvalidCharacterError\<close> when a code unit exceeds 255 and otherwise encodes the code
  units as bytes, three bytes to four characters, padding the last group with \<^verbatim>\<open>=\<close>.
  \<^verbatim>\<open>atob\<close> is the forgiving decoder: it removes ASCII whitespace, removes one or two
  trailing \<^verbatim>\<open>=\<close> when the remaining length is a multiple of four, fails when the length
  then leaves remainder one or when a character outside the alphabet remains, and
  otherwise decodes six bits a character, dropping the two or four bits left over.
\<close>

definition b64_char :: "nat \<Rightarrow> code_unit" where
  "b64_char n =
     (if n < 26 then of_nat (65 + n)
      else if n < 52 then of_nat (97 + (n - 26))
      else if n < 62 then of_nat (48 + (n - 52))
      else if n = 62 then 43
      else 47)"

definition b64_index :: "code_unit \<Rightarrow> nat option" where
  "b64_index c =
     (let n = unat c in
      if 65 \<le> n \<and> n \<le> 90 then Some (n - 65)
      else if 97 \<le> n \<and> n \<le> 122 then Some (n - 97 + 26)
      else if 48 \<le> n \<and> n \<le> 57 then Some (n - 48 + 52)
      else if n = 43 then Some 62
      else if n = 47 then Some 63
      else None)"

definition pad_char :: code_unit where
  "pad_char = 61"

fun base64_encode :: "nat list \<Rightarrow> js_string" where
  "base64_encode (a # b # c # rest) =
     b64_char (a div 4) # b64_char ((a mod 4) * 16 + b div 16) #
     b64_char ((b mod 16) * 4 + c div 64) # b64_char (c mod 64) # base64_encode rest"
| "base64_encode [a, b] =
     [b64_char (a div 4), b64_char ((a mod 4) * 16 + b div 16),
      b64_char ((b mod 16) * 4), pad_char]"
| "base64_encode [a] =
     [b64_char (a div 4), b64_char ((a mod 4) * 16), pad_char, pad_char]"
| "base64_encode [] = []"

definition btoa :: "js_string \<Rightarrow> dom_error + js_string" where
  "btoa s =
     (if list_ex (\<lambda>c. 255 < unat c) s then Inl InvalidCharacterError
      else Inr (base64_encode (map unat s)))"

definition is_ascii_whitespace :: "code_unit \<Rightarrow> bool" where
  "is_ascii_whitespace c = (c = 9 \<or> c = 10 \<or> c = 12 \<or> c = 13 \<or> c = 32)"

definition strip_padding :: "js_string \<Rightarrow> js_string" where
  "strip_padding d =
     (if length d mod 4 = 0 \<and> d \<noteq> [] \<and> last d = pad_char then
        (if butlast d \<noteq> [] \<and> last (butlast d) = pad_char then butlast (butlast d)
         else butlast d)
      else d)"

fun those_indices :: "js_string \<Rightarrow> nat list option" where
  "those_indices [] = Some []"
| "those_indices (c # cs) =
     (case b64_index c of
        None \<Rightarrow> None
      | Some n \<Rightarrow> (case those_indices cs of None \<Rightarrow> None | Some ns \<Rightarrow> Some (n # ns)))"

fun decode_sextets :: "nat list \<Rightarrow> nat list" where
  "decode_sextets (s1 # s2 # s3 # s4 # rest) =
     (s1 * 4 + s2 div 16) # ((s2 mod 16) * 16 + s3 div 4) # ((s3 mod 4) * 64 + s4) #
     decode_sextets rest"
| "decode_sextets [s1, s2, s3] = [s1 * 4 + s2 div 16, (s2 mod 16) * 16 + s3 div 4]"
| "decode_sextets [s1, s2] = [s1 * 4 + s2 div 16]"
| "decode_sextets [s1] = []"
| "decode_sextets [] = []"

definition atob :: "js_string \<Rightarrow> dom_error + js_string" where
  "atob s =
     (let d = strip_padding (filter (\<lambda>c. \<not> is_ascii_whitespace c) s) in
      if length d mod 4 = 1 then Inl InvalidCharacterError
      else (case those_indices d of
              None \<Rightarrow> Inl InvalidCharacterError
            | Some ns \<Rightarrow> Inr (map of_nat (decode_sextets ns))))"

section \<open>Codec\<close>

text \<open>
  \<^verbatim>\<open>arrayBufferToBase64\<close> appends \<^verbatim>\<open>String.fromCharCode(bytes[i])\<close> to \<^verbatim>\<open>binary\<close> for each
  index and passes the result to \<^verbatim>\<open>btoa\<close>. \<^verbatim>\<open>base64ToArrayBuffer\<close> calls \<^verbatim>\<open>atob\<close>,
  allocates a zeroed \<^verbatim>\<open>Uint8Array\<close> of the string's length and stores
  \<^verbatim>\<open>binary.charCodeAt(i)\<close> at each index; a store into a \<^verbatim>\<open>Uint8Array\<close> keeps the low
  eight bits.
\<close>

definition fromCharCode :: "byte \<Rightarrow> code_unit" where
  "fromCharCode b = ucast b"

fun binary_loop :: "bytes \<Rightarrow> js_string \<Rightarrow> js_string" where
  "binary_loop [] binary = binary"
| "binary_loop (b # bs) binary = binary_loop bs (binary @ [fromCharCode b])"

definition arrayBufferToBase64 :: "bytes \<Rightarrow> dom_error + js_string" where
  "arrayBufferToBase64 buffer = btoa (binary_loop buffer [])"

function fill_loop :: "js_string \<Rightarrow> nat \<Rightarrow> bytes \<Rightarrow> bytes" where
  "fill_loop binary i bs =
     (if i < length binary then fill_loop binary (Suc i) (bs[i := ucast (binary ! i)])
      else bs)"
  by pat_completeness auto
termination
  by (relation "measure (\<lambda>(binary, i, bs). length binary - i)") auto

declare fill_loop.simps [simp del]

definition base64ToArrayBuffer :: "js_string \<Rightarrow> dom_error + bytes" where
  "base64ToArrayBuffer base64 =
     (case atob base64 of
        Inl e \<Rightarrow> Inl e
      | Inr binary \<Rightarrow> Inr (fill_loop binary 0 (replicate (length binary) 0)))"

section \<open>The platform: text encoding, random values, keys\<close>

text \<open>
  \<^verbatim>\<open>TextEncoder.encode\<close>, as the Encoding Standard defines it, takes its argument as a
  sequence of scalar values: a surrogate
  pair becomes one supplementary code point, a surrogate without its partner becomes
  U+FFFD, and the result is encoded as UTF-8.
\<close>

fun scalar_values :: "nat list \<Rightarrow> nat list" where
  "scalar_values [] = []"
| "scalar_values [c] = (if 55296 \<le> c \<and> c \<le> 57343 then [65533] else [c])"
| "scalar_values (c # d # cs) =
     (if 55296 \<le> c \<and> c \<le> 56319 then
        (if 56320 \<le> d \<and> d \<le> 57343
         then (65536 + (c - 55296) * 1024 + (d - 56320)) # scalar_values cs
         else 65533 # scalar_values (d # cs))
      else if 56320 \<le> c \<and> c \<le> 57343 then 65533 # scalar_values (d # cs)
      else c # scalar_values (d # cs))"

definition utf8_bytes :: "nat \<Rightarrow> bytes" where
  "utf8_bytes u =
     (if u < 128 then [of_nat u]
      else if u < 2048 then [of_nat (192 + u div 64), of_nat (128 + u mod 64)]
      else if u < 65536 then
        [of_nat (224 + u div 4096), of_nat (128 + (u div 64) mod 64), of_nat (128 + u mod 64)]
      else
        [of_nat (240 + u div 262144), of_nat (128 + (u div 4096) mod 64),
         of_nat (128 + (u div 64) mod 64), of_nat (128 + u mod 64)])"

definition TextEncoder_encode :: "js_string \<Rightarrow> bytes" where
  "TextEncoder_encode s = concat (map utf8_bytes (scalar_values (map unat s)))"

text \<open>
  \<^verbatim>\<open>crypto.getRandomValues\<close> fills an array of the given length from the platform's
  random source. The source is an explicit state: an unbounded supply of bytes, of which
  each call consumes a prefix.
\<close>

type_synonym rng = "nat \<Rightarrow> byte"

definition getRandomValues :: "nat \<Rightarrow> rng \<Rightarrow> bytes \<times> rng" where
  "getRandomValues n g = (map g [0..<n], \<lambda>i. g (i + n))"

text \<open>
  A \<^verbatim>\<open>CryptoKey\<close> carries its type, its extractable flag, its algorithm and its usages
  beside the key material. The engine uses one hash (SHA-256) throughout, so an algorithm
  is identified by its name; the material of an RSA key is its canonical container
  encoding (SubjectPublicKeyInfo for a public key, PKCS#8 for a private key), that of a
  symmetric key its raw bytes.
\<close>

datatype key_type = Public | Private | Secret

datatype key_usage = Encrypt | Decrypt | WrapKey | UnwrapKey | DeriveBits | DeriveKey

datatype key_algorithm = RSA_OAEP | AES_GCM | PBKDF2

datatype key_format = Spki | Pkcs8 | Raw

record crypto_key =
  ktype :: key_type
  extractable :: bool
  algorithm :: key_algorithm
  usages :: "key_usage set"
  material :: bytes

record key_pair =
  publicKey :: crypto_key
  privateKey :: crypto_key

text \<open>
  The cryptographic mathematics is the platform's and is a parameter of the model: RSA key
  generation, parsing of the two key containers into their canonical encoding, RSA-OAEP
  (encryption takes the public key, the fresh OAEP seed and the message),
  AES-GCM with the tag appended to the ciphertext (key, IV, data; decryption returns
  nothing when the tag does not verify), PBKDF2 with HMAC-SHA-256 (password, salt,
  iterations, length in bits), and the message text of the \<^verbatim>\<open>DOMException\<close> with which a
  failing call rejects. That text is implementation-defined and can differ between two
  failures of the same name (a ciphertext shorter than the tag and a tag that does not
  verify are both an \<^verbatim>\<open>OperationError\<close>), so it is a function of the call that fails.
\<close>

datatype engine_call =
    UnsealCall js_string js_string js_string js_string
  | UnwrapCall js_string crypto_key
  | DecryptFileCall bytes crypto_key js_string

record provider =
  rsa_generate :: "nat \<Rightarrow> bytes \<Rightarrow> rng \<Rightarrow> (bytes \<times> bytes) \<times> rng"
  parse_spki :: "bytes \<Rightarrow> bytes option"
  parse_pkcs8 :: "bytes \<Rightarrow> bytes option"
  rsa_oaep_encrypt :: "bytes \<Rightarrow> bytes \<Rightarrow> bytes \<Rightarrow> bytes option"
  rsa_oaep_decrypt :: "bytes \<Rightarrow> bytes \<Rightarrow> bytes option"
  aes_gcm_encrypt :: "bytes \<Rightarrow> bytes \<Rightarrow> bytes \<Rightarrow> bytes"
  aes_gcm_decrypt :: "bytes \<Rightarrow> bytes \<Rightarrow> bytes \<Rightarrow> bytes option"
  pbkdf2_sha256 :: "bytes \<Rightarrow> bytes \<Rightarrow> nat \<Rightarrow> nat \<Rightarrow> bytes"
  dom_message :: "engine_call \<Rightarrow> string"

section \<open>The operations of \<^verbatim>\<open>crypto.subtle\<close> that the engine calls\<close>

text \<open>
  These are the platform's operations, modelled as the Web Cryptography API specifies them
  for the algorithms and formats the engine uses; any other combination is a
  \<^verbatim>\<open>NotSupportedError\<close>. Each operation performs its checks before the mathematics:
  usages outside those the algorithm allows are a \<^verbatim>\<open>SyntaxError\<close>, as is a secret or
  private key without usages; a key of the wrong algorithm or type, a key lacking the
  usage of the operation and the export of a non-extractable key are an
  \<^verbatim>\<open>InvalidAccessError\<close>; unparsable key data is a \<^verbatim>\<open>DataError\<close>; a failed decryption is
  an \<^verbatim>\<open>OperationError\<close>. A generated RSA key pair splits the requested usages: the
  public key keeps those among encrypt and wrapKey and is always extractable, the private
  key keeps those among decrypt and unwrapKey.
\<close>

definition await :: "'e + 'a \<Rightarrow> ('a \<Rightarrow> 'e + 'b) \<Rightarrow> 'e + 'b" where
  "await r f = (case r of Inl e \<Rightarrow> Inl e | Inr x \<Rightarrow> f x)"

definition subtle_generateKey_rsa ::
  "provider \<Rightarrow> nat \<Rightarrow> bytes \<Rightarrow> bool \<Rightarrow> key_usage set \<Rightarrow> rng \<Rightarrow> (dom_error + key_pair) \<times> rng" where
  "subtle_generateKey_rsa P modulusLength publicExponent ext us g =
     (if \<not> us \<subseteq> {Encrypt, Decrypt, WrapKey, UnwrapKey} then (Inl SyntaxError, g)
      else
        (case rsa_generate P modulusLength publicExponent g of
           ((spki, pkcs8), g') \<Rightarrow>
             if us \<inter> {Decrypt, UnwrapKey} = {} then (Inl SyntaxError, g')
             else
               (Inr \<lparr>publicKey =
                       \<lparr>ktype = Public, extractable = True, algorithm = RSA_OAEP,
                        usages = us \<inter> {Encrypt, WrapKey}, material = spki\<rparr>,
                     privateKey =
                       \<lparr>ktype = Private, extractable = ext, algorithm = RSA_OAEP,
                        usages = us \<inter> {Decrypt, UnwrapKey}, material = pkcs8\<rparr>\<rparr>,
                g')))"

definition subtle_generateKey_aes ::
  "nat \<Rightarrow> bool \<Rightarrow> key_usage set \<Rightarrow> rng \<Rightarrow> (dom_error + crypto_key) \<times> rng" where
  "subtle_generateKey_aes len ext us g =
     (if \<not> us \<subseteq> {Encrypt, Decrypt, WrapKey, UnwrapKey} then (Inl SyntaxError, g)
      else if len \<noteq> 128 \<and> len \<noteq> 192 \<and> len \<noteq> 256 then (Inl OperationError, g)
      else
        (case getRandomValues (len div 8) g of
           (raw, g') \<Rightarrow>
             if us = {} then (Inl SyntaxError, g')
             else
               (Inr \<lparr>ktype = Secret, extractable = ext, algorithm = AES_GCM,
                     usages = us, material = raw\<rparr>, g')))"

definition subtle_importKey ::
  "provider \<Rightarrow> key_format \<Rightarrow> bytes \<Rightarrow> key_algorithm \<Rightarrow> bool \<Rightarrow> key_usage set \<Rightarrow>
   dom_error + crypto_key" where
  "subtle_importKey P format keyData alg ext us =
     (case (alg, format) of
        (RSA_OAEP, Spki) \<Rightarrow>
          if \<not> us \<subseteq> {Encrypt, WrapKey} then Inl SyntaxError
          else (case parse_spki P keyData of
                  None \<Rightarrow> Inl DataError
                | Some m \<Rightarrow>
                    Inr \<lparr>ktype = Public, extractable = ext, algorithm = RSA_OAEP,
                         usages = us, material = m\<rparr>)
      | (RSA_OAEP, Pkcs8) \<Rightarrow>
          if \<not> us \<subseteq> {Decrypt, UnwrapKey} then Inl SyntaxError
          else (case parse_pkcs8 P keyData of
                  None \<Rightarrow> Inl DataError
                | Some m \<Rightarrow>
                    if us = {} then Inl SyntaxError
                    else Inr \<lparr>ktype = Private, extractable = ext, algorithm = RSA_OAEP,
                              usages = us, material = m\<rparr>)
      | (AES_GCM, Raw) \<Rightarrow>
          if \<not> us \<subseteq> {Encrypt, Decrypt, WrapKey, UnwrapKey} then Inl SyntaxError
          else if length keyData \<noteq> 16 \<and> length keyData \<noteq> 24 \<and> length keyData \<noteq> 32
            then Inl DataError
          else if us = {} then Inl SyntaxError
          else Inr \<lparr>ktype = Secret, extractable = ext, algorithm = AES_GCM,
                    usages = us, material = keyData\<rparr>
      | (PBKDF2, Raw) \<Rightarrow>
          if \<not> us \<subseteq> {DeriveKey, DeriveBits} then Inl SyntaxError
          else if ext then Inl SyntaxError
          else if us = {} then Inl SyntaxError
          else Inr \<lparr>ktype = Secret, extractable = False, algorithm = PBKDF2,
                    usages = us, material = keyData\<rparr>
      | _ \<Rightarrow> Inl NotSupportedError)"

definition subtle_exportKey :: "key_format \<Rightarrow> crypto_key \<Rightarrow> dom_error + bytes" where
  "subtle_exportKey format key =
     (if algorithm key = PBKDF2 then Inl NotSupportedError
      else if \<not> extractable key then Inl InvalidAccessError
      else
        (case (algorithm key, format) of
           (RSA_OAEP, Spki) \<Rightarrow>
             if ktype key \<noteq> Public then Inl InvalidAccessError else Inr (material key)
         | (RSA_OAEP, Pkcs8) \<Rightarrow>
             if ktype key \<noteq> Private then Inl InvalidAccessError else Inr (material key)
         | (AES_GCM, Raw) \<Rightarrow> Inr (material key)
         | _ \<Rightarrow> Inl NotSupportedError))"

datatype crypt_params = AesGcmParams bytes | RsaOaepParams

fun params_name :: "crypt_params \<Rightarrow> key_algorithm" where
  "params_name (AesGcmParams iv) = AES_GCM"
| "params_name RsaOaepParams = RSA_OAEP"

fun encrypt_op ::
  "provider \<Rightarrow> crypt_params \<Rightarrow> crypto_key \<Rightarrow> bytes \<Rightarrow> rng \<Rightarrow> (dom_error + bytes) \<times> rng" where
  "encrypt_op P (AesGcmParams iv) key data g =
     (Inr (aes_gcm_encrypt P (material key) iv data), g)"
| "encrypt_op P RsaOaepParams key data g =
     (if ktype key \<noteq> Public then (Inl InvalidAccessError, g)
      else
        (case getRandomValues 32 g of
           (seed, g') \<Rightarrow>
             (case rsa_oaep_encrypt P (material key) seed data of
                None \<Rightarrow> (Inl OperationError, g')
              | Some c \<Rightarrow> (Inr c, g'))))"

fun decrypt_op :: "provider \<Rightarrow> crypt_params \<Rightarrow> crypto_key \<Rightarrow> bytes \<Rightarrow> dom_error + bytes" where
  "decrypt_op P (AesGcmParams iv) key data =
     (case aes_gcm_decrypt P (material key) iv data of
        None \<Rightarrow> Inl OperationError
      | Some plaintext \<Rightarrow> Inr plaintext)"
| "decrypt_op P RsaOaepParams key data =
     (if ktype key \<noteq> Private then Inl InvalidAccessError
      else
        (case rsa_oaep_decrypt P (material key) data of
           None \<Rightarrow> Inl OperationError
         | Some plaintext \<Rightarrow> Inr plaintext))"

definition subtle_encrypt ::
  "provider \<Rightarrow> crypt_params \<Rightarrow> crypto_key \<Rightarrow> bytes \<Rightarrow> rng \<Rightarrow> (dom_error + bytes) \<times> rng" where
  "subtle_encrypt P params key data g =
     (if params_name params \<noteq> algorithm key then (Inl InvalidAccessError, g)
      else if Encrypt \<notin> usages key then (Inl InvalidAccessError, g)
      else encrypt_op P params key data g)"

definition subtle_decrypt ::
  "provider \<Rightarrow> crypt_params \<Rightarrow> crypto_key \<Rightarrow> bytes \<Rightarrow> dom_error + bytes" where
  "subtle_decrypt P params key data =
     (if params_name params \<noteq> algorithm key then Inl InvalidAccessError
      else if Decrypt \<notin> usages key then Inl InvalidAccessError
      else decrypt_op P params key data)"

definition subtle_deriveKey ::
  "provider \<Rightarrow> bytes \<Rightarrow> nat \<Rightarrow> crypto_key \<Rightarrow> key_algorithm \<Rightarrow> nat \<Rightarrow> bool \<Rightarrow> key_usage set \<Rightarrow>
   dom_error + crypto_key" where
  "subtle_deriveKey P salt iterations baseKey derivedAlg len ext us =
     (if algorithm baseKey \<noteq> PBKDF2 then Inl InvalidAccessError
      else if DeriveKey \<notin> usages baseKey then Inl InvalidAccessError
      else if len \<noteq> 128 \<and> len \<noteq> 192 \<and> len \<noteq> 256 then Inl OperationError
      else if iterations = 0 then Inl OperationError
      else
        subtle_importKey P Raw (pbkdf2_sha256 P (material baseKey) salt iterations len)
          derivedAlg ext us)"

definition subtle_wrapKey ::
  "provider \<Rightarrow> key_format \<Rightarrow> crypto_key \<Rightarrow> crypto_key \<Rightarrow> crypt_params \<Rightarrow> rng \<Rightarrow>
   (dom_error + bytes) \<times> rng" where
  "subtle_wrapKey P format key wrappingKey params g =
     (if params_name params \<noteq> algorithm wrappingKey then (Inl InvalidAccessError, g)
      else if WrapKey \<notin> usages wrappingKey then (Inl InvalidAccessError, g)
      else
        (case subtle_exportKey format key of
           Inl e \<Rightarrow> (Inl e, g)
         | Inr keyBytes \<Rightarrow> encrypt_op P params wrappingKey keyBytes g))"

definition subtle_unwrapKey ::
  "provider \<Rightarrow> key_format \<Rightarrow> bytes \<Rightarrow> crypto_key \<Rightarrow> crypt_params \<Rightarrow> key_algorithm \<Rightarrow> bool \<Rightarrow>
   key_usage set \<Rightarrow> dom_error + crypto_key" where
  "subtle_unwrapKey P format wrappedKey unwrappingKey params unwrappedAlg ext us =
     (if params_name params \<noteq> algorithm unwrappingKey then Inl InvalidAccessError
      else if UnwrapKey \<notin> usages unwrappingKey then Inl InvalidAccessError
      else
        await (decrypt_op P params unwrappingKey wrappedKey)
          (\<lambda>keyBytes. subtle_importKey P format keyBytes unwrappedAlg ext us))"

section \<open>The engine: \<^verbatim>\<open>src/lib/encryption.ts\<close>\<close>

definition generateUserKeypair :: "provider \<Rightarrow> rng \<Rightarrow> (dom_error + key_pair) \<times> rng" where
  "generateUserKeypair P g =
     subtle_generateKey_rsa P 4096 [1, 0, 1] True {Encrypt, Decrypt, WrapKey, UnwrapKey} g"

definition exportPublicKey :: "crypto_key \<Rightarrow> dom_error + js_string" where
  "exportPublicKey pubKey = await (subtle_exportKey Spki pubKey) arrayBufferToBase64"

definition exportPrivateKey :: "crypto_key \<Rightarrow> dom_error + js_string" where
  "exportPrivateKey privKey = await (subtle_exportKey Pkcs8 privKey) arrayBufferToBase64"

definition importPublicKey :: "provider \<Rightarrow> js_string \<Rightarrow> dom_error + crypto_key" where
  "importPublicKey P base64Key =
     await (base64ToArrayBuffer base64Key)
       (\<lambda>keyBuffer. subtle_importKey P Spki keyBuffer RSA_OAEP True {Encrypt, WrapKey})"

definition importPrivateKey :: "provider \<Rightarrow> js_string \<Rightarrow> dom_error + crypto_key" where
  "importPrivateKey P base64Key =
     await (base64ToArrayBuffer base64Key)
       (\<lambda>keyBuffer. subtle_importKey P Pkcs8 keyBuffer RSA_OAEP True {Decrypt, UnwrapKey})"

definition deriveKeyFromPassphrase ::
  "provider \<Rightarrow> js_string \<Rightarrow> bytes \<Rightarrow> dom_error + crypto_key" where
  "deriveKeyFromPassphrase P passphrase salt =
     await (subtle_importKey P Raw (TextEncoder_encode passphrase) PBKDF2 False
              {DeriveBits, DeriveKey})
       (\<lambda>keyMaterial.
          subtle_deriveKey P salt 100000 keyMaterial AES_GCM 256 False {Encrypt, Decrypt})"

record sealed_private_key =
  encryptedKey :: js_string
  salt :: js_string
  iv :: js_string

definition encryptPrivateKey ::
  "provider \<Rightarrow> crypto_key \<Rightarrow> js_string \<Rightarrow> rng \<Rightarrow> (dom_error + sealed_private_key) \<times> rng" where
  "encryptPrivateKey P privKey passphrase g =
     (case getRandomValues 16 g of
        (saltBytes, g1) \<Rightarrow>
     (case getRandomValues 12 g1 of
        (ivBytes, g2) \<Rightarrow>
     (case deriveKeyFromPassphrase P passphrase saltBytes of
        Inl e \<Rightarrow> (Inl e, g2)
      | Inr derivedKey \<Rightarrow>
     (case subtle_exportKey Pkcs8 privKey of
        Inl e \<Rightarrow> (Inl e, g2)
      | Inr privateKeyBuffer \<Rightarrow>
     (case subtle_encrypt P (AesGcmParams ivBytes) derivedKey privateKeyBuffer g2 of
        (Inl e, g3) \<Rightarrow> (Inl e, g3)
      | (Inr encryptedBuffer, g3) \<Rightarrow>
          (await (arrayBufferToBase64 encryptedBuffer) (\<lambda>ek.
           await (arrayBufferToBase64 saltBytes) (\<lambda>s.
           await (arrayBufferToBase64 ivBytes) (\<lambda>i.
             Inr \<lparr>encryptedKey = ek, salt = s, iv = i\<rparr>))), g3))))))"

definition decryptPrivateKey ::
  "provider \<Rightarrow> js_string \<Rightarrow> js_string \<Rightarrow> js_string \<Rightarrow> js_string \<Rightarrow> dom_error + crypto_key" where
  "decryptPrivateKey P encKey saltText ivText passphrase =
     await (base64ToArrayBuffer saltText) (\<lambda>saltBuffer.
     await (base64ToArrayBuffer ivText) (\<lambda>ivBuffer.
     await (base64ToArrayBuffer encKey) (\<lambda>encryptedBuffer.
     await (deriveKeyFromPassphrase P passphrase saltBuffer) (\<lambda>derivedKey.
     await (subtle_decrypt P (AesGcmParams ivBuffer) derivedKey encryptedBuffer)
       (\<lambda>decryptedBuffer.
          subtle_importKey P Pkcs8 decryptedBuffer RSA_OAEP True {Decrypt, UnwrapKey})))))"

definition generateFileEncryptionKey :: "rng \<Rightarrow> (dom_error + crypto_key) \<times> rng" where
  "generateFileEncryptionKey g = subtle_generateKey_aes 256 True {Encrypt, Decrypt} g"

record encrypted_file =
  encrypted :: bytes
  iv :: js_string

definition encryptFile ::
  "provider \<Rightarrow> bytes \<Rightarrow> crypto_key \<Rightarrow> rng \<Rightarrow> (dom_error + encrypted_file) \<times> rng" where
  "encryptFile P file key g =
     (case getRandomValues 12 g of
        (ivBytes, g1) \<Rightarrow>
     (case subtle_encrypt P (AesGcmParams ivBytes) key file g1 of
        (Inl e, g2) \<Rightarrow> (Inl e, g2)
      | (Inr encryptedBuffer, g2) \<Rightarrow>
          (await (arrayBufferToBase64 ivBytes)
             (\<lambda>i. Inr \<lparr>encrypted = encryptedBuffer, iv = i\<rparr>), g2)))"

definition decryptFile ::
  "provider \<Rightarrow> bytes \<Rightarrow> crypto_key \<Rightarrow> js_string \<Rightarrow> dom_error + bytes" where
  "decryptFile P encryptedBlob key ivText =
     await (base64ToArrayBuffer ivText)
       (\<lambda>ivBuffer. subtle_decrypt P (AesGcmParams ivBuffer) key encryptedBlob)"

definition wrapSymmetricKey ::
  "provider \<Rightarrow> crypto_key \<Rightarrow> crypto_key \<Rightarrow> rng \<Rightarrow> (dom_error + js_string) \<times> rng" where
  "wrapSymmetricKey P symmetricKey pubKey g =
     (case subtle_wrapKey P Raw symmetricKey pubKey RsaOaepParams g of
        (Inl e, g') \<Rightarrow> (Inl e, g')
      | (Inr wrappedKey, g') \<Rightarrow> (arrayBufferToBase64 wrappedKey, g'))"

definition unwrapSymmetricKey ::
  "provider \<Rightarrow> js_string \<Rightarrow> crypto_key \<Rightarrow> dom_error + crypto_key" where
  "unwrapSymmetricKey P wrappedKey privKey =
     await (base64ToArrayBuffer wrappedKey)
       (\<lambda>wrappedKeyBuffer.
          subtle_unwrapKey P Raw wrappedKeyBuffer privKey RsaOaepParams AES_GCM True
            {Encrypt, Decrypt})"

section \<open>The download flow: \<^verbatim>\<open>handleDecrypt\<close> of the file list\<close>

text \<open>
  \<^verbatim>\<open>handleDecrypt\<close> returns at once without a signed-in user or a selected file. Otherwise
  it queries the \<^verbatim>\<open>user_keys\<close> table, unseals the private key with the passphrase,
  downloads the blob at the file's storage path, unwraps the file key and decrypts the
  blob. The database and the object storage are collaborators: their answers are inputs.
  The stored \<^verbatim>\<open>encrypted_private_key\<close> column is the JSON text that key setup wrote from
  the three fields; it is modelled as the record it parses to. Every step the flow
  reaches is logged, in order. An error is a value with a message: a \<^verbatim>\<open>DOMException\<close>
  thrown by the engine has its name and the platform's message for the failing call. The
  \<^verbatim>\<open>catch\<close> block replaces an error whose message contains \<^verbatim>\<open>OperationError\<close> or
  \<^verbatim>\<open>decrypt\<close> by an invalid-passphrase error and rethrows any other error unchanged.
  \<^verbatim>\<open>DecryptDialog\<close> calls \<^verbatim>\<open>handleDecrypt\<close> as its \<^verbatim>\<open>onDecrypt\<close>: without a passphrase it
  shows a prompt and calls nothing; when the call rejects it shows the error's message,
  or a default text when the message is empty.
\<close>

datatype app_error =
    Dom dom_error string
  | JsError string
  | CollaboratorError string

datatype event =
    QueryUserKeys
  | UnsealPrivateKey
  | DownloadBlob
  | UnwrapFileKey
  | DecryptBlob

datatype outcome = NotStarted | Downloaded bytes

record stored_file =
  filename :: string
  encrypted_symmetric_key :: js_string
  iv :: js_string
  storage_path :: string

record collaborators =
  user_keys_row :: "app_error + sealed_private_key option"
  storage_download :: "string \<Rightarrow> app_error + bytes"

fun starts_with :: "string \<Rightarrow> string \<Rightarrow> bool" where
  "starts_with s [] = True"
| "starts_with [] (p # ps) = False"
| "starts_with (c # cs) (p # ps) = (c = p \<and> starts_with cs ps)"

fun includes_text :: "string \<Rightarrow> string \<Rightarrow> bool" where
  "includes_text [] sub = (sub = [])"
| "includes_text (c # cs) sub = (starts_with (c # cs) sub \<or> includes_text cs sub)"

fun error_message :: "app_error \<Rightarrow> string" where
  "error_message (Dom e m) = m"
| "error_message (JsError m) = m"
| "error_message (CollaboratorError m) = m"

definition handleDecrypt_try ::
  "provider \<Rightarrow> collaborators \<Rightarrow> stored_file \<Rightarrow> js_string \<Rightarrow> (app_error + outcome) \<times> event list" where
  "handleDecrypt_try P env selectedFile passphrase =
     (case user_keys_row env of
        Inl keyError \<Rightarrow> (Inl keyError, [QueryUserKeys])
      | Inr None \<Rightarrow>
          (Inl (JsError ''Encryption keys not found. Please set up your keys first.''),
           [QueryUserKeys])
      | Inr (Some keyData) \<Rightarrow>
     (case decryptPrivateKey P (encryptedKey keyData) (salt keyData)
             (sealed_private_key.iv keyData) passphrase of
        Inl e \<Rightarrow>
          (Inl (Dom e (dom_message P
                  (UnsealCall (encryptedKey keyData) (salt keyData)
                     (sealed_private_key.iv keyData) passphrase))),
           [QueryUserKeys, UnsealPrivateKey])
      | Inr privKey \<Rightarrow>
     (case storage_download env (storage_path selectedFile) of
        Inl downloadError \<Rightarrow> (Inl downloadError, [QueryUserKeys, UnsealPrivateKey, DownloadBlob])
      | Inr encryptedBlob \<Rightarrow>
     (case unwrapSymmetricKey P (encrypted_symmetric_key selectedFile) privKey of
        Inl e \<Rightarrow>
          (Inl (Dom e (dom_message P
                  (UnwrapCall (encrypted_symmetric_key selectedFile) privKey))),
           [QueryUserKeys, UnsealPrivateKey, DownloadBlob, UnwrapFileKey])
      | Inr symmetricKey \<Rightarrow>
     (case decryptFile P encryptedBlob symmetricKey (stored_file.iv selectedFile) of
        Inl e \<Rightarrow>
          (Inl (Dom e (dom_message P
                  (DecryptFileCall encryptedBlob symmetricKey (stored_file.iv selectedFile)))),
           [QueryUserKeys, UnsealPrivateKey, DownloadBlob, UnwrapFileKey, DecryptBlob])
      | Inr decryptedBlob \<Rightarrow>
          (Inr (Downloaded decryptedBlob),
           [QueryUserKeys, UnsealPrivateKey, DownloadBlob, UnwrapFileKey, DecryptBlob]))))))"

definition catches_message :: "string \<Rightarrow> bool" where
  "catches_message m = (includes_text m ''OperationError'' \<or> includes_text m ''decrypt'')"

definition handleDecrypt_catch :: "app_error \<Rightarrow> app_error" where
  "handleDecrypt_catch error =
     (if catches_message (error_message error)
      then JsError ''Invalid passphrase. Please try again.''
      else error)"

definition handleDecrypt ::
  "provider \<Rightarrow> collaborators \<Rightarrow> string option \<Rightarrow> stored_file option \<Rightarrow> js_string \<Rightarrow>
   (app_error + outcome) \<times> event list" where
  "handleDecrypt P env user selectedFile passphrase =
     (case (user, selectedFile) of
        (Some u, Some file) \<Rightarrow>
          (case handleDecrypt_try P env file passphrase of
             (Inl error, trace) \<Rightarrow> (Inl (handleDecrypt_catch error), trace)
           | (Inr res, trace) \<Rightarrow> (Inr res, trace))
      | _ \<Rightarrow> (Inr NotStarted, []))"



section \<open>Assumptions on the platform's mathematics, and a small provider\<close>

text \<open>
  The theorems below take the provider as a parameter and assume of it only what the
  primitives guarantee: AES-GCM decryption inverts encryption under the same 256-bit key
  and 96-bit IV; PBKDF2 asked for 256 bits returns 32 bytes; a public and a private key
  match when RSA-OAEP decryption under the private key inverts encryption of a 32-byte
  message under the public key. \<open>rejects_other_keys\<close> is the idealisation of the
  integrity tag: a ciphertext does not verify under a different 256-bit key.
\<close>

definition aead_correct :: "provider \<Rightarrow> bool" where
  "aead_correct P =
     (\<forall>k n m. length k = 32 \<and> length n = 12 \<longrightarrow>
        aes_gcm_decrypt P k n (aes_gcm_encrypt P k n m) = Some m)"

definition kdf_length_ok :: "provider \<Rightarrow> bool" where
  "kdf_length_ok P = (\<forall>pw s it. length (pbkdf2_sha256 P pw s it 256) = 32)"

definition matching_keys :: "provider \<Rightarrow> bytes \<Rightarrow> bytes \<Rightarrow> bool" where
  "matching_keys P pk sk =
     (\<forall>seed m. length seed = 32 \<and> length m = 32 \<longrightarrow>
        (\<exists>c. rsa_oaep_encrypt P pk seed m = Some c \<and> rsa_oaep_decrypt P sk c = Some m))"

definition rejects_other_keys :: "provider \<Rightarrow> bool" where
  "rejects_other_keys P =
     (\<forall>k k' n m. length k = 32 \<and> length k' = 32 \<and> k \<noteq> k' \<longrightarrow>
        aes_gcm_decrypt P k' n (aes_gcm_encrypt P k n m) = None)"

text \<open>
  The keys the engine hands out: a private key is an extractable RSA-OAEP private key
  with the usages decrypt and unwrapKey whose material is a canonical PKCS#8 encoding; a
  file key is an extractable 256-bit AES-GCM key with the usages encrypt and decrypt.
\<close>

definition valid_private_key :: "provider \<Rightarrow> crypto_key \<Rightarrow> bool" where
  "valid_private_key P k =
     (ktype k = Private \<and> algorithm k = RSA_OAEP \<and> extractable k
      \<and> usages k = {Decrypt, UnwrapKey}
      \<and> parse_pkcs8 P (material k) = Some (material k))"

definition valid_file_key :: "crypto_key \<Rightarrow> bool" where
  "valid_file_key k =
     (ktype k = Secret \<and> algorithm k = AES_GCM \<and> extractable k
      \<and> usages k = {Encrypt, Decrypt} \<and> length (material k) = 32)"

definition encrypt_only :: "crypto_key \<Rightarrow> bool" where
  "encrypt_only k = (ktype k = Public \<and> usages k \<subseteq> {Encrypt, WrapKey})"

definition decrypt_only :: "crypto_key \<Rightarrow> bool" where
  "decrypt_only k = (ktype k = Private \<and> usages k \<subseteq> {Decrypt, UnwrapKey})"

text \<open>
  A provider to instantiate the theorems at: its cipher prefixes the data with key and IV
  and checks them on decryption, its key derivation pads or cuts password and salt to the
  requested length, its RSA prefixes the message with the key. Its messages are those of
  a common implementation: one text for data shorter than the 16-byte tag, another for
  every other failure.
\<close>

fun toy_message :: "engine_call \<Rightarrow> string" where
  "toy_message (DecryptFileCall blob key ivText) =
     (if length blob < 16 then ''The provided data is too small.''
      else ''The operation failed for an operation-specific reason'')"
| "toy_message (UnsealCall encKey saltText ivText passphrase) =
     ''The operation failed for an operation-specific reason''"
| "toy_message (UnwrapCall wrappedKey privKey) =
     ''The operation failed for an operation-specific reason''"

definition toy_provider :: provider where
  "toy_provider =
     \<lparr>rsa_generate = (\<lambda>n e g. (([7], [7]), g)),
      parse_spki = Some,
      parse_pkcs8 = Some,
      rsa_oaep_encrypt = (\<lambda>pk seed m. Some (pk @ m)),
      rsa_oaep_decrypt =
        (\<lambda>sk c. if take (length sk) c = sk then Some (drop (length sk) c) else None),
      aes_gcm_encrypt = (\<lambda>k n m. k @ n @ m),
      aes_gcm_decrypt =
        (\<lambda>k n c. if take (length k + length n) c = k @ n
                  then Some (drop (length k + length n) c) else None),
      pbkdf2_sha256 = (\<lambda>pw s it len. take (len div 8) (pw @ s @ replicate (len div 8) 0)),
      dom_message = toy_message\<rparr>"

definition toy_rng :: rng where
  "toy_rng = (\<lambda>i. of_nat i)"

definition toy_private_key :: crypto_key where
  "toy_private_key =
     \<lparr>ktype = Private, extractable = True, algorithm = RSA_OAEP,
      usages = {Decrypt, UnwrapKey}, material = [7]\<rparr>"

definition toy_public_key :: crypto_key where
  "toy_public_key =
     \<lparr>ktype = Public, extractable = True, algorithm = RSA_OAEP,
      usages = {Encrypt, WrapKey}, material = [7]\<rparr>"

definition toy_file_key :: crypto_key where
  "toy_file_key =
     \<lparr>ktype = Secret, extractable = True, algorithm = AES_GCM,
      usages = {Encrypt, Decrypt}, material = replicate 32 5\<rparr>"


definition toy_sealed :: sealed_private_key where
  "toy_sealed =
     projr (fst (encryptPrivateKey toy_provider toy_private_key [0xD800] toy_rng))"

definition toy_wrapped :: js_string where
  "toy_wrapped = projr (fst (wrapSymmetricKey toy_provider toy_file_key toy_public_key toy_rng))"

definition toy_env :: collaborators where
  "toy_env = \<lparr>user_keys_row = Inr (Some toy_sealed), storage_download = (\<lambda>path. Inr [])\<rparr>"


definition toy_env_intact :: collaborators where
  "toy_env_intact =
     \<lparr>user_keys_row = Inr (Some toy_sealed),
      storage_download = (\<lambda>path. Inr (replicate 32 5 @ [104, 105]))\<rparr>"

definition toy_file :: stored_file where
  "toy_file =
     \<lparr>filename = ''notes.txt'', encrypted_symmetric_key = toy_wrapped, iv = [],
      storage_path = ''u/notes''\<rparr>"

text \<open>The sextets and the number of padding characters of an encoding.\<close>

fun sextets :: "nat list \<Rightarrow> nat list" where
  "sextets (a # b # c # rest) =
     (a div 4) # ((a mod 4) * 16 + b div 16) # ((b mod 16) * 4 + c div 64) # (c mod 64) #
     sextets rest"
| "sextets [a, b] = [a div 4, (a mod 4) * 16 + b div 16, (b mod 16) * 4]"
| "sextets [a] = [a div 4, (a mod 4) * 16]"
| "sextets [] = []"

fun pad_count :: "nat list \<Rightarrow> nat" where
  "pad_count (a # b # c # rest) = pad_count rest"
| "pad_count [a, b] = 1"
| "pad_count [a] = 2"
| "pad_count [] = 0"

section \<open>Codec: encoding then decoding\<close>

lemma binary_loop_eq: "binary_loop bs acc = acc @ map fromCharCode bs"
  by (induction bs arbitrary: acc) simp_all

lemma fill_loop_eq:
  "length bs = length binary \<Longrightarrow> i \<le> length binary \<Longrightarrow>
   fill_loop binary i bs = take i bs @ map ucast (drop i binary)"
proof (induction binary i bs rule: fill_loop.induct)
  case (1 binary i bs)
  show ?case
  proof (cases "i < length binary")
    case True
    have "fill_loop binary i bs = fill_loop binary (Suc i) (bs[i := ucast (binary ! i)])"
      using True by (subst fill_loop.simps) simp
    also have "\<dots> = take (Suc i) (bs[i := ucast (binary ! i)]) @ map ucast (drop (Suc i) binary)"
      using "1.IH" [OF True] "1.prems" True by simp
    also have "\<dots> = take i bs @ map ucast (drop i binary)"
      using True "1.prems"
      by (simp add: take_Suc_conv_app_nth Cons_nth_drop_Suc [symmetric])
    finally show ?thesis .
  next
    case False
    then show ?thesis using "1.prems" by (subst fill_loop.simps) simp
  qed
qed

lemma fill_loop_map: "n = length binary \<Longrightarrow> fill_loop binary 0 (replicate n 0) = map ucast binary"
  using fill_loop_eq [of "replicate n 0" binary 0] by simp

lemma unat_cu: "k < 65536 \<Longrightarrow> unat (of_nat k :: code_unit) = k"
  by (simp add: unat_of_nat)

lemma b64_char_unat:
  "n < 64 \<Longrightarrow> unat (b64_char n) =
     (if n < 26 then 65 + n else if n < 52 then 97 + (n - 26) else if n < 62 then 48 + (n - 52)
      else if n = 62 then 43 else 47)"
  unfolding b64_char_def by (simp add: unat_cu del: of_nat_add of_nat_diff)

lemma b64_index_char: "n < 64 \<Longrightarrow> b64_index (b64_char n) = Some n"
  by (auto simp add: b64_index_def b64_char_unat Let_def)

lemma b64_char_not_ws: "n < 64 \<Longrightarrow> \<not> is_ascii_whitespace (b64_char n)"
proof -
  assume n: "n < 64"
  have "unat (b64_char n) \<ge> 43" using n by (auto simp add: b64_char_unat)
  moreover have "is_ascii_whitespace c \<Longrightarrow> unat c \<le> 32" for c
    by (auto simp: is_ascii_whitespace_def)
  ultimately show ?thesis by fastforce
qed

lemma b64_char_not_pad: "n < 64 \<Longrightarrow> b64_char n \<noteq> pad_char"
proof -
  assume n: "n < 64"
  have "unat (b64_char n) \<noteq> 61" using n by (auto simp add: b64_char_unat)
  moreover have "unat pad_char = 61" by (simp add: pad_char_def)
  ultimately show ?thesis by metis
qed

lemma pad_not_ws: "\<not> is_ascii_whitespace pad_char"
  by (simp add: is_ascii_whitespace_def pad_char_def)

lemma base64_encode_split:
  "base64_encode bs = map b64_char (sextets bs) @ replicate (pad_count bs) pad_char"
  by (induction bs rule: base64_encode.induct) (simp_all add: numeral_2_eq_2)

lemma sextets_length:
  "(length (sextets bs) + pad_count bs) mod 4 = 0 \<and> pad_count bs \<le> 2
   \<and> length (sextets bs) mod 4 \<noteq> 1"
  by (induction bs rule: sextets.induct) simp_all

lemma those_indices_chars:
  "\<forall>s\<in>set ss. s < 64 \<Longrightarrow> those_indices (map b64_char ss) = Some ss"
  by (induction ss) (simp_all add: b64_index_char)

lemma high_bits: "(a::nat) < 256 \<Longrightarrow> a div 4 < 64"
  by simp

lemma two_four: "(x::nat) < 4 \<Longrightarrow> y < 16 \<Longrightarrow> x * 16 + y < 64"
  by simp

lemma four_two: "(x::nat) < 16 \<Longrightarrow> y < 4 \<Longrightarrow> x * 4 + y < 64"
  by simp

lemma div16: "(b::nat) < 256 \<Longrightarrow> b div 16 < 16"
  by simp

lemma div64: "(b::nat) < 256 \<Longrightarrow> b div 64 < 4"
  by simp

lemma sextets_bound: "\<forall>x\<in>set bs. x < 256 \<Longrightarrow> \<forall>s\<in>set (sextets bs). s < 64"
  by (induction bs rule: sextets.induct) (simp_all add: two_four four_two div16 div64 high_bits)

lemma decode_sextets_sextets: "\<forall>x\<in>set bs. x < 256 \<Longrightarrow> decode_sextets (sextets bs) = bs"
  by (induction bs rule: sextets.induct) (simp_all add: div16 div64)

lemma strip_padding_encoded:
  assumes "(length cs + k) mod 4 = 0" and "k \<le> 2" and "\<forall>c\<in>set cs. c \<noteq> pad_char"
  shows "strip_padding (cs @ replicate k pad_char) = cs"
proof -
  consider "k = 0" | "k = 1" | "k = 2" using assms(2) by linarith
  then show ?thesis
  proof cases
    case 1
    then show ?thesis using assms by (cases cs rule: rev_cases) (simp_all add: strip_padding_def)
  next
    case 2
    then have "cs \<noteq> []" using assms(1) by auto
    then show ?thesis using 2 assms
      by (cases cs rule: rev_cases) (simp_all add: strip_padding_def butlast_append)
  next
    case 3
    then show ?thesis using assms
      by (simp add: strip_padding_def numeral_2_eq_2 butlast_append)
  qed
qed

lemma filter_ws_encoded:
  "\<forall>s\<in>set ss. s < 64 \<Longrightarrow>
   filter (\<lambda>c. \<not> is_ascii_whitespace c) (map b64_char ss @ replicate k pad_char) =
   map b64_char ss @ replicate k pad_char"
  by (simp add: filter_id_conv b64_char_not_ws pad_not_ws)

lemma atob_base64_encode:
  assumes "\<forall>x\<in>set bs. x < 256"
  shows "atob (base64_encode bs) = Inr (map of_nat bs)"
proof -
  let ?ss = "sextets bs" and ?k = "pad_count bs"
  have lt: "\<forall>s\<in>set ?ss. s < 64" using assms by (rule sextets_bound)
  have len: "(length (map b64_char ?ss) + ?k) mod 4 = 0" "?k \<le> 2" "length ?ss mod 4 \<noteq> 1"
    using sextets_length [of bs] by simp_all
  have nopad: "\<forall>c\<in>set (map b64_char ?ss). c \<noteq> pad_char"
    using lt by (simp add: b64_char_not_pad)
  have strip: "strip_padding (map b64_char ?ss @ replicate ?k pad_char) = map b64_char ?ss"
    using len(1,2) nopad by (rule strip_padding_encoded)
  show ?thesis
    unfolding atob_def base64_encode_split filter_ws_encoded [OF lt] strip Let_def
    using len(3) by (simp add: those_indices_chars [OF lt] decode_sextets_sextets [OF assms])
qed

lemma unat_byte_less: "unat (b :: byte) < 256"
  using unsigned_less [of b, where 'a = nat] by simp

lemma unat_fromCharCode: "unat (fromCharCode b) = unat b"
proof -
  have "unat b < 2 ^ 16" using unat_byte_less [of b] by simp
  then have "take_bit 16 (unat b) = unat b" by (rule take_bit_nat_eq_self)
  then show ?thesis by (simp add: fromCharCode_def unsigned_ucast_eq)
qed

lemma byte_back: "ucast (ucast b :: code_unit) = (b :: byte)"
  by (simp add: ucast_up_ucast_id is_up)

lemma btoa_binary: "btoa (map fromCharCode bs) = Inr (base64_encode (map unat bs))"
proof -
  have "\<not> 255 < unat b" for b :: byte
    using unat_byte_less [of b] by simp
  then have "\<not> list_ex (\<lambda>c. 255 < unat c) (map fromCharCode bs)"
    by (simp add: list_ex_iff unat_fromCharCode)
  then show ?thesis
    by (simp add: btoa_def unat_fromCharCode comp_def)
qed

lemma encode_bytes: "arrayBufferToBase64 bs = Inr (base64_encode (map unat bs))"
  by (simp add: arrayBufferToBase64_def binary_loop_eq btoa_binary)

lemma decode_encode_bytes:
  "base64ToArrayBuffer (base64_encode (map unat (bs :: bytes))) = Inr bs"
proof -
  have "\<forall>x\<in>set (map unat bs). x < 256"
    by (simp add: unat_byte_less)
  then have "atob (base64_encode (map unat bs)) = Inr (map of_nat (map unat bs))"
    by (rule atob_base64_encode)
  then show ?thesis
    by (simp add: base64ToArrayBuffer_def fill_loop_map comp_def byte_back map_idI)
qed

text \<open>
  C5. For every byte sequence, the empty one included, \<^verbatim>\<open>arrayBufferToBase64\<close> returns a
  text and \<^verbatim>\<open>base64ToArrayBuffer\<close> of that text returns the same bytes, in the same order
  and number.
\<close>

theorem codec_roundtrip:
  "\<exists>t. arrayBufferToBase64 b = Inr t \<and> base64ToArrayBuffer t = Inr b"
  by (simp add: encode_bytes decode_encode_bytes)

section \<open>Codec: what the decoder rejects\<close>

lemma those_indices_None: "those_indices d = None \<longleftrightarrow> (\<exists>c\<in>set d. b64_index c = None)"
  by (induction d) (auto split: option.splits)

lemma atob_fails_iff:
  "atob s = Inl InvalidCharacterError \<longleftrightarrow>
     (length (strip_padding (filter (\<lambda>c. \<not> is_ascii_whitespace c) s)) mod 4 = 1
      \<or> (\<exists>c\<in>set (strip_padding (filter (\<lambda>c. \<not> is_ascii_whitespace c) s)). b64_index c = None))"
  by (auto simp: atob_def Let_def those_indices_None [symmetric] split: option.splits)

lemma atob_error: "atob s = Inl e \<Longrightarrow> e = InvalidCharacterError"
  by (auto simp: atob_def Let_def split: option.splits if_splits)

lemma decode_fails_iff_atob: "base64ToArrayBuffer s = Inl e \<longleftrightarrow> atob s = Inl e"
  by (simp add: base64ToArrayBuffer_def split: sum.splits)

lemma in_butlast: "xs \<noteq> [] \<Longrightarrow> c \<in> set xs \<Longrightarrow> c \<noteq> last xs \<Longrightarrow> c \<in> set (butlast xs)"
  by (induction xs) (auto split: if_splits)

lemma strip_padding_keeps:
  assumes "c \<in> set d" and "c \<noteq> pad_char"
  shows "c \<in> set (strip_padding d)"
proof (cases "length d mod 4 = 0 \<and> d \<noteq> [] \<and> last d = pad_char")
  case False
  then show ?thesis using assms by (auto simp: strip_padding_def)
next
  case True
  then have b1: "c \<in> set (butlast d)" using assms by (simp add: in_butlast)
  show ?thesis
  proof (cases "butlast d \<noteq> [] \<and> last (butlast d) = pad_char")
    case False
    then show ?thesis using True b1 by (auto simp: strip_padding_def)
  next
    case t: True
    then have "c \<in> set (butlast (butlast d))" using b1 assms(2) by (simp add: in_butlast)
    then show ?thesis using True t by (simp add: strip_padding_def)
  qed
qed

text \<open>
  C6, as amended. \<^verbatim>\<open>base64ToArrayBuffer\<close> fails exactly when the text, with ASCII whitespace
  removed and then one or two trailing \<^verbatim>\<open>=\<close> removed if its length is a multiple of four,
  has a length that leaves remainder one modulo four or still contains a character outside
  the alphabet; its only error is \<^verbatim>\<open>InvalidCharacterError\<close>, the codec's signal of a
  malformed encoding; and it fails on every text containing a character that is neither
  in the alphabet, nor ASCII whitespace, nor \<^verbatim>\<open>=\<close>.
\<close>

theorem decode_failure:
  "(base64ToArrayBuffer s = Inl InvalidCharacterError \<longleftrightarrow>
      (length (strip_padding (filter (\<lambda>c. \<not> is_ascii_whitespace c) s)) mod 4 = 1
       \<or> (\<exists>c\<in>set (strip_padding (filter (\<lambda>c. \<not> is_ascii_whitespace c) s)).
            b64_index c = None)))
   \<and> (base64ToArrayBuffer s = Inl e \<longrightarrow> e = InvalidCharacterError)
   \<and> ((\<exists>c\<in>set s. b64_index c = None \<and> \<not> is_ascii_whitespace c \<and> c \<noteq> pad_char) \<longrightarrow>
        base64ToArrayBuffer s = Inl InvalidCharacterError)"
proof (intro conjI impI)
  show "base64ToArrayBuffer s = Inl InvalidCharacterError \<longleftrightarrow>
      (length (strip_padding (filter (\<lambda>c. \<not> is_ascii_whitespace c) s)) mod 4 = 1
       \<or> (\<exists>c\<in>set (strip_padding (filter (\<lambda>c. \<not> is_ascii_whitespace c) s)).
            b64_index c = None))"
    unfolding decode_fails_iff_atob by (rule atob_fails_iff)
next
  assume "base64ToArrayBuffer s = Inl e"
  then show "e = InvalidCharacterError"
    unfolding decode_fails_iff_atob by (rule atob_error)
next
  assume "\<exists>c\<in>set s. b64_index c = None \<and> \<not> is_ascii_whitespace c \<and> c \<noteq> pad_char"
  then obtain c where c: "c \<in> set s" "b64_index c = None" "\<not> is_ascii_whitespace c"
      "c \<noteq> pad_char"
    by blast
  then have "c \<in> set (filter (\<lambda>c. \<not> is_ascii_whitespace c) s)" by simp
  then have "c \<in> set (strip_padding (filter (\<lambda>c. \<not> is_ascii_whitespace c) s))"
    using c(4) by (rule strip_padding_keeps)
  then show "base64ToArrayBuffer s = Inl InvalidCharacterError"
    unfolding decode_fails_iff_atob atob_fails_iff using c(2) by blast
qed

theorem decode_failure_witness:
  "base64ToArrayBuffer [81, 33, 81, 81] = Inl InvalidCharacterError"
proof -
  have "\<exists>c\<in>set [81, 33, 81, 81 :: code_unit].
          b64_index c = None \<and> \<not> is_ascii_whitespace c \<and> c \<noteq> pad_char"
    by (simp add: b64_index_def is_ascii_whitespace_def pad_char_def)
  then show ?thesis using decode_failure [of "[81, 33, 81, 81]"] by blast
qed

text \<open>
  The claim as stated fails: a space is outside the alphabet, yet the text
  \<^verbatim>\<open>" QQ=="\<close> decodes to the byte 65, and so does \<^verbatim>\<open>"QQ"\<close>, whose padding is missing.
\<close>

theorem decode_failure_counterexample:
  "b64_index 32 = None \<and> base64ToArrayBuffer [32, 81, 81, 61, 61] = Inr [65]
   \<and> base64ToArrayBuffer [81, 81] = Inr [65]"
  by code_simp

section \<open>The engine's functions, step by step\<close>

lemma getRandomValues_length: "length (fst (getRandomValues n g)) = n"
  by (simp add: getRandomValues_def)

lemma derive_eq:
  assumes "kdf_length_ok P"
  shows "deriveKeyFromPassphrase P pw s =
           Inr \<lparr>ktype = Secret, extractable = False, algorithm = AES_GCM,
                usages = {Encrypt, Decrypt},
                material = pbkdf2_sha256 P (TextEncoder_encode pw) s 100000 256\<rparr>"
proof -
  have len: "length (pbkdf2_sha256 P (TextEncoder_encode pw) s 100000 256) = 32"
    using assms by (simp add: kdf_length_ok_def)
  show ?thesis
    by (simp add: deriveKeyFromPassphrase_def subtle_importKey_def subtle_deriveKey_def
        await_def len)
qed

lemma generated_file_key_valid:
  "\<exists>k g'. generateFileEncryptionKey g = (Inr k, g') \<and> valid_file_key k"
  by (simp add: generateFileEncryptionKey_def subtle_generateKey_aes_def getRandomValues_def
      valid_file_key_def)

lemma import_private_role:
  "subtle_importKey P Pkcs8 d RSA_OAEP True {Decrypt, UnwrapKey} = Inr k \<Longrightarrow>
   ktype k = Private \<and> usages k = {Decrypt, UnwrapKey}"
  by (auto simp: subtle_importKey_def split: option.splits)

lemma import_public_role:
  "subtle_importKey P Spki d RSA_OAEP True {Encrypt, WrapKey} = Inr k \<Longrightarrow>
   ktype k = Public \<and> usages k = {Encrypt, WrapKey}"
  by (auto simp: subtle_importKey_def split: option.splits)

lemma await_Inr: "await r f = Inr y \<Longrightarrow> \<exists>x. r = Inr x \<and> f x = Inr y"
  by (cases r) (simp_all add: await_def)

lemma generate_pair:
  "\<exists>spki pkcs8 g'. generateUserKeypair P g =
     (Inr \<lparr>publicKey = \<lparr>ktype = Public, extractable = True, algorithm = RSA_OAEP,
                        usages = {Encrypt, WrapKey}, material = spki\<rparr>,
           privateKey = \<lparr>ktype = Private, extractable = True, algorithm = RSA_OAEP,
                        usages = {Decrypt, UnwrapKey}, material = pkcs8\<rparr>\<rparr>, g')"
proof -
  obtain spki pkcs8 g' where r: "rsa_generate P 4096 [1, 0, 1] g = ((spki, pkcs8), g')"
    by (metis prod.exhaust)
  have i1: "{Encrypt, Decrypt, WrapKey, UnwrapKey} \<inter> {Encrypt, WrapKey} = {Encrypt, WrapKey}"
    by auto
  have i2: "{Encrypt, Decrypt, WrapKey, UnwrapKey} \<inter> {Decrypt, UnwrapKey} = {Decrypt, UnwrapKey}"
    by auto
  show ?thesis
    by (simp add: generateUserKeypair_def subtle_generateKey_rsa_def r i1 i2)
qed

lemma generated_private_key_valid:
  assumes "generateUserKeypair P g = (Inr kp, g')"
    and "parse_pkcs8 P (material (privateKey kp)) = Some (material (privateKey kp))"
  shows "valid_private_key P (privateKey kp)"
  using generate_pair [of P g] assms by (auto simp: valid_private_key_def)

lemma imported_private_key_valid:
  assumes "importPrivateKey P t = Inr k"
    and "parse_pkcs8 P (material k) = Some (material k)"
  shows "valid_private_key P k"
  using assms
  by (auto simp: importPrivateKey_def subtle_importKey_def valid_private_key_def
      dest!: await_Inr split: option.splits)

lemma encrypt_only_cannot_decrypt:
  assumes "encrypt_only k"
  shows "subtle_decrypt P prm k d = Inl InvalidAccessError"
    and "subtle_unwrapKey P fmt w k prm alg ext us = Inl InvalidAccessError"
  using assms
  by (auto simp: encrypt_only_def subtle_decrypt_def subtle_unwrapKey_def)

lemma decrypt_only_cannot_encrypt:
  assumes "decrypt_only k"
  shows "subtle_encrypt P prm k d g = (Inl InvalidAccessError, g)"
    and "subtle_wrapKey P fmt key k prm g = (Inl InvalidAccessError, g)"
  using assms
  by (auto simp: decrypt_only_def subtle_encrypt_def subtle_wrapKey_def)

lemma encode_then_decode:
  "await (arrayBufferToBase64 b) f = f (base64_encode (map unat b))"
  by (simp add: await_def encode_bytes)

lemma decode_await:
  "await (base64ToArrayBuffer (base64_encode (map unat b))) f = f b"
  by (simp add: await_def decode_encode_bytes)

lemma seal_eq:
  assumes "kdf_length_ok P" and "extractable priv" and "ktype priv = Private"
    and "algorithm priv = RSA_OAEP"
  shows "encryptPrivateKey P priv p g =
      (Inr \<lparr>encryptedKey = base64_encode (map unat
               (aes_gcm_encrypt P (pbkdf2_sha256 P (TextEncoder_encode p) (map g [0..<16]) 100000 256)
                  (map (\<lambda>i. g (i + 16)) [0..<12]) (material priv))),
            salt = base64_encode (map unat (map g [0..<16])),
            iv = base64_encode (map unat (map (\<lambda>i. g (i + 16)) [0..<12]))\<rparr>,
       \<lambda>i. g (i + 12 + 16))"
  unfolding encryptPrivateKey_def getRandomValues_def
  by (simp add: derive_eq [OF assms(1)] subtle_exportKey_def assms subtle_encrypt_def
      encode_then_decode)

lemma unseal_eq:
  assumes "kdf_length_ok P"
  shows "decryptPrivateKey P (base64_encode (map unat c)) (base64_encode (map unat s))
           (base64_encode (map unat n)) p =
         (case aes_gcm_decrypt P (pbkdf2_sha256 P (TextEncoder_encode p) s 100000 256) n c of
            None \<Rightarrow> Inl OperationError
          | Some d \<Rightarrow> subtle_importKey P Pkcs8 d RSA_OAEP True {Decrypt, UnwrapKey})"
  unfolding decryptPrivateKey_def decode_await
  by (simp add: derive_eq [OF assms] await_def subtle_decrypt_def split: option.splits)

lemma lone_surrogates_encode_alike: "TextEncoder_encode [0xD800] = TextEncoder_encode [0xDC00]"
  by (simp add: TextEncoder_encode_def)

lemma lone_surrogates_unseal_alike:
  "decryptPrivateKey P ek st it [0xD800] = decryptPrivateKey P ek st it [0xDC00]"
  by (simp add: decryptPrivateKey_def deriveKeyFromPassphrase_def lone_surrogates_encode_alike)





lemma try_prefix:
  "\<exists>n. snd (handleDecrypt_try P env file pw) =
     take n [QueryUserKeys, UnsealPrivateKey, DownloadBlob, UnwrapFileKey, DecryptBlob]"
proof -
  let ?all = "[QueryUserKeys, UnsealPrivateKey, DownloadBlob, UnwrapFileKey, DecryptBlob]"
  have t: "[QueryUserKeys] = take 1 ?all" "[QueryUserKeys, UnsealPrivateKey] = take 2 ?all"
    "[QueryUserKeys, UnsealPrivateKey, DownloadBlob] = take 3 ?all"
    "[QueryUserKeys, UnsealPrivateKey, DownloadBlob, UnwrapFileKey] = take 4 ?all"
    "?all = take 5 ?all"
    by simp_all
  show ?thesis
    unfolding handleDecrypt_try_def
    by (auto split: sum.splits option.splits intro: t)
qed

lemma handleDecrypt_trace:
  "snd (handleDecrypt P env usr sel pw) =
     (case (usr, sel) of (Some u, Some file) \<Rightarrow> snd (handleDecrypt_try P env file pw) | _ \<Rightarrow> [])"
  by (auto simp: handleDecrypt_def split: option.splits sum.splits prod.splits)

lemma try_download_after_unseal:
  assumes "DownloadBlob \<in> set (snd (handleDecrypt_try P env file pw))"
  shows "\<exists>kd k. user_keys_row env = Inr (Some kd)
           \<and> decryptPrivateKey P (encryptedKey kd) (salt kd) (sealed_private_key.iv kd) pw = Inr k"
  using assms
  by (auto simp: handleDecrypt_try_def split: sum.splits option.splits)

section \<open>The small provider meets the assumptions\<close>

lemma toy_aead: "aead_correct toy_provider"
  by (simp add: aead_correct_def toy_provider_def)

lemma toy_kdf: "kdf_length_ok toy_provider"
  by (auto simp add: kdf_length_ok_def toy_provider_def)

lemma toy_rejects: "rejects_other_keys toy_provider"
  by (simp add: rejects_other_keys_def toy_provider_def)

lemma toy_matching: "matching_keys toy_provider [7] [7]"
  by (simp add: matching_keys_def toy_provider_def)

lemma toy_private_valid: "valid_private_key toy_provider toy_private_key"
  by (simp add: valid_private_key_def toy_provider_def toy_private_key_def)

lemma toy_file_key_valid: "valid_file_key toy_file_key"
  by (simp add: valid_file_key_def toy_file_key_def)

lemma toy_keys_differ:
  "pbkdf2_sha256 toy_provider (TextEncoder_encode [97]) (fst (getRandomValues 16 toy_rng)) 100000 256
   \<noteq> pbkdf2_sha256 toy_provider (TextEncoder_encode [98]) (fst (getRandomValues 16 toy_rng)) 100000 256"
  by (simp add: toy_provider_def TextEncoder_encode_def utf8_bytes_def)

lemma toy_sealed_eq:
  "fst (encryptPrivateKey toy_provider toy_private_key [0xD800] toy_rng) = Inr toy_sealed"
  unfolding toy_sealed_def
  by (simp add: seal_eq [OF toy_kdf] toy_private_key_def)

lemma toy_unseal:
  "decryptPrivateKey toy_provider (encryptedKey toy_sealed) (salt toy_sealed)
     (sealed_private_key.iv toy_sealed) [0xD800] = Inr toy_private_key"
proof -
  have v: "extractable toy_private_key" "ktype toy_private_key = Private"
      "algorithm toy_private_key = RSA_OAEP"
    by (simp_all add: toy_private_key_def)
  have len: "length (pbkdf2_sha256 toy_provider pw s 100000 256) = 32" for pw s
    using toy_kdf by (simp add: kdf_length_ok_def)
  have inv: "aes_gcm_decrypt toy_provider (pbkdf2_sha256 toy_provider pw s 100000 256) n
       (aes_gcm_encrypt toy_provider (pbkdf2_sha256 toy_provider pw s 100000 256) n m) = Some m"
    for pw s n m
    by (simp add: toy_provider_def)
  have imp: "subtle_importKey toy_provider Pkcs8 (material toy_private_key) RSA_OAEP True
      {Decrypt, UnwrapKey} = Inr toy_private_key"
    by (simp add: subtle_importKey_def toy_provider_def toy_private_key_def)
  show ?thesis
    unfolding toy_sealed_def seal_eq [OF toy_kdf v]
    by (simp add: unseal_eq [OF toy_kdf] inv imp del: map_map)
qed

lemma toy_wrap:
  "wrapSymmetricKey toy_provider toy_file_key toy_public_key g =
     (Inr (base64_encode (map unat ([7] @ material toy_file_key))), \<lambda>i. g (i + 32))"
  by (simp add: wrapSymmetricKey_def subtle_wrapKey_def subtle_exportKey_def
      toy_file_key_def toy_public_key_def getRandomValues_def toy_provider_def encode_bytes)

lemma toy_unwrap: "unwrapSymmetricKey toy_provider toy_wrapped toy_private_key = Inr toy_file_key"
proof -
  have imp: "subtle_importKey toy_provider Raw (material toy_file_key) AES_GCM True
      {Encrypt, Decrypt} = Inr toy_file_key"
    by (simp add: subtle_importKey_def toy_file_key_def)
  have dec: "decrypt_op toy_provider RsaOaepParams toy_private_key ([7] @ material toy_file_key)
      = Inr (material toy_file_key)"
    by (simp add: toy_provider_def toy_private_key_def)
  show ?thesis
    unfolding toy_wrapped_def toy_wrap fst_conv sum.sel unwrapSymmetricKey_def decode_await
    unfolding subtle_unwrapKey_def dec
    by (simp add: await_def imp toy_private_key_def)
qed

lemma decode_empty: "base64ToArrayBuffer [] = Inr []"
  by code_simp

lemma toy_empty_blob: "decryptFile toy_provider [] toy_file_key [] = Inl OperationError"
  by (simp add: decryptFile_def decode_empty await_def subtle_decrypt_def toy_file_key_def
      toy_provider_def)


lemma toy_intact_blob:
  "decryptFile toy_provider (replicate 32 5 @ [104, 105]) toy_file_key [] = Inr [104, 105]"
  by (simp add: decryptFile_def decode_empty await_def subtle_decrypt_def toy_file_key_def
      toy_provider_def)

lemma toy_messages_not_caught:
  "\<not> catches_message ''The provided data is too small.''"
  "\<not> catches_message ''The operation failed for an operation-specific reason''"
  by (code_simp, code_simp)

lemma toy_file_fields:
  "encrypted_symmetric_key toy_file = toy_wrapped" "stored_file.iv toy_file = []"
  by (simp_all add: toy_file_def)

lemma toy_run:
  "handleDecrypt toy_provider toy_env (Some u) (Some toy_file) [0xD800] =
     (Inl (Dom OperationError ''The provided data is too small.''),
      [QueryUserKeys, UnsealPrivateKey, DownloadBlob, UnwrapFileKey, DecryptBlob])"
proof -
  have e: "user_keys_row toy_env = Inr (Some toy_sealed)"
    "storage_download toy_env p = Inr []" for p
    by (simp_all add: toy_env_def)
  have m: "dom_message toy_provider (DecryptFileCall [] toy_file_key [])
      = ''The provided data is too small.''"
    by (simp add: toy_provider_def)
  show ?thesis
    by (simp add: handleDecrypt_def handleDecrypt_try_def e toy_unseal toy_file_fields
        toy_unwrap toy_empty_blob m handleDecrypt_catch_def toy_messages_not_caught)
qed


lemma toy_run_intact:
  "handleDecrypt toy_provider toy_env_intact (Some u) (Some toy_file) [0xDC00] =
     (Inr (Downloaded [104, 105]),
      [QueryUserKeys, UnsealPrivateKey, DownloadBlob, UnwrapFileKey, DecryptBlob])"
proof -
  have e: "user_keys_row toy_env_intact = Inr (Some toy_sealed)"
    "storage_download toy_env_intact p = Inr (replicate 32 5 @ [104, 105])" for p
    by (simp_all add: toy_env_intact_def)
  have u: "decryptPrivateKey toy_provider (encryptedKey toy_sealed) (salt toy_sealed)
      (sealed_private_key.iv toy_sealed) [0xDC00] = Inr toy_private_key"
    using toy_unseal by (simp add: lone_surrogates_unseal_alike [symmetric])
  show ?thesis
    by (simp add: handleDecrypt_def handleDecrypt_try_def e u toy_file_fields toy_unwrap
        toy_intact_blob)
qed

lemma toy_unseal_wrong:
  "decryptPrivateKey toy_provider (encryptedKey toy_sealed) (salt toy_sealed)
     (sealed_private_key.iv toy_sealed) [98] = Inl OperationError"
proof -
  have v: "extractable toy_private_key" "ktype toy_private_key = Private"
      "algorithm toy_private_key = RSA_OAEP"
    by (simp_all add: toy_private_key_def)
  let ?s = "map toy_rng [0..<16]"
  let ?k1 = "pbkdf2_sha256 toy_provider (TextEncoder_encode [0xD800]) ?s 100000 256"
  let ?k2 = "pbkdf2_sha256 toy_provider (TextEncoder_encode [98]) ?s 100000 256"
  have len: "length ?k1 = 32" "length ?k2 = 32"
    using toy_kdf by (simp_all add: kdf_length_ok_def)
  have "?k1 \<noteq> ?k2"
    by (simp add: toy_provider_def TextEncoder_encode_def utf8_bytes_def)
  then have rej: "aes_gcm_decrypt toy_provider ?k2 n (aes_gcm_encrypt toy_provider ?k1 n m) = None"
    for n m
    using toy_rejects len unfolding rejects_other_keys_def by blast
  show ?thesis
    unfolding toy_sealed_def seal_eq [OF toy_kdf v]
    by (simp add: unseal_eq [OF toy_kdf] rej del: map_map)
qed

section \<open>File cipher\<close>

text \<open>
  C1. For every message, the empty one included, and every 256-bit AES-GCM key that may
  encrypt and decrypt, \<^verbatim>\<open>encryptFile\<close> succeeds, and \<^verbatim>\<open>decryptFile\<close> of the ciphertext it
  returns, under the same key and the IV text it returns, yields exactly the message.
\<close>

theorem file_cipher_roundtrip:
  assumes "aead_correct P" and "algorithm k = AES_GCM" and "Encrypt \<in> usages k"
    and "Decrypt \<in> usages k" and "length (material k) = 32"
  shows "\<exists>r g'. encryptFile P m k g = (Inr r, g')
           \<and> decryptFile P (encrypted r) k (encrypted_file.iv r) = Inr m"
proof -
  let ?n = "map g [0..<12]"
  have inv: "aes_gcm_decrypt P (material k) ?n (aes_gcm_encrypt P (material k) ?n m) = Some m"
    using assms(1,5) by (simp add: aead_correct_def)
  have enc: "encryptFile P m k g =
      (Inr \<lparr>encrypted = aes_gcm_encrypt P (material k) ?n m,
            iv = base64_encode (map unat ?n)\<rparr>, \<lambda>i. g (i + 12))"
    by (simp add: encryptFile_def getRandomValues_def subtle_encrypt_def assms
        encode_then_decode)
  have dec: "decryptFile P (aes_gcm_encrypt P (material k) ?n m) k (base64_encode (map unat ?n))
      = Inr m"
    unfolding decryptFile_def decode_await
    by (simp add: subtle_decrypt_def assms inv)
  show ?thesis unfolding enc using dec by simp
qed

theorem file_cipher_roundtrip_witness:
  "aead_correct toy_provider \<and> algorithm toy_file_key = AES_GCM
   \<and> Encrypt \<in> usages toy_file_key \<and> Decrypt \<in> usages toy_file_key
   \<and> length (material toy_file_key) = 32
   \<and> (\<exists>r g'. encryptFile toy_provider [] toy_file_key toy_rng = (Inr r, g')
          \<and> decryptFile toy_provider (encrypted r) toy_file_key (encrypted_file.iv r) = Inr [])
   \<and> (\<exists>r g'. encryptFile toy_provider [104, 105] toy_file_key toy_rng = (Inr r, g')
          \<and> decryptFile toy_provider (encrypted r) toy_file_key (encrypted_file.iv r)
              = Inr [104, 105])"
proof -
  have k: "algorithm toy_file_key = AES_GCM" "Encrypt \<in> usages toy_file_key"
      "Decrypt \<in> usages toy_file_key" "length (material toy_file_key) = 32"
    by (simp_all add: toy_file_key_def)
  show ?thesis
    using file_cipher_roundtrip [OF toy_aead k, of "[]" toy_rng]
      file_cipher_roundtrip [OF toy_aead k, of "[104, 105]" toy_rng] toy_aead k
    by simp
qed

section \<open>Private-key vault\<close>

text \<open>
  C2. For every valid private key and every passphrase, \<^verbatim>\<open>encryptPrivateKey\<close> succeeds,
  and \<^verbatim>\<open>decryptPrivateKey\<close> of the three texts it returns, with the same passphrase,
  yields a key equal to the one sealed.
\<close>

theorem seal_unseal_roundtrip:
  assumes "aead_correct P" and "kdf_length_ok P" and "valid_private_key P priv"
  shows "\<exists>s g'. encryptPrivateKey P priv p g = (Inr s, g')
           \<and> decryptPrivateKey P (encryptedKey s) (salt s) (sealed_private_key.iv s) p = Inr priv"
proof -
  let ?salt = "map g [0..<16]" and ?n = "map (\<lambda>i. g (i + 16)) [0..<12]"
  let ?key = "pbkdf2_sha256 P (TextEncoder_encode p) ?salt 100000 256"
  have v: "ktype priv = Private" "algorithm priv = RSA_OAEP" "extractable priv"
      "usages priv = {Decrypt, UnwrapKey}" "parse_pkcs8 P (material priv) = Some (material priv)"
    using assms(3) by (simp_all add: valid_private_key_def)
  have "length ?key = 32" using assms(2) by (simp add: kdf_length_ok_def)
  then have inv: "aes_gcm_decrypt P ?key ?n (aes_gcm_encrypt P ?key ?n (material priv))
      = Some (material priv)"
    using assms(1) by (simp add: aead_correct_def)
  have imp: "subtle_importKey P Pkcs8 (material priv) RSA_OAEP True {Decrypt, UnwrapKey}
      = Inr priv"
    using v by (simp add: subtle_importKey_def)
  show ?thesis
    unfolding seal_eq [OF assms(2) v(3) v(1) v(2)]
    by (simp add: unseal_eq [OF assms(2)] inv imp del: map_map)
qed

theorem seal_unseal_roundtrip_witness:
  "aead_correct toy_provider \<and> kdf_length_ok toy_provider
   \<and> valid_private_key toy_provider toy_private_key
   \<and> (\<exists>s g'. encryptPrivateKey toy_provider toy_private_key [104, 105] toy_rng = (Inr s, g')
          \<and> decryptPrivateKey toy_provider (encryptedKey s) (salt s) (sealed_private_key.iv s)
               [104, 105] = Inr toy_private_key)"
  using seal_unseal_roundtrip [OF toy_aead toy_kdf toy_private_valid, of "[104, 105]" toy_rng]
    toy_aead toy_kdf toy_private_valid
  by simp

text \<open>
  C3, as amended. When the keys derived from the UTF-8 encodings of two passphrases under
  the seal's salt differ, and the cipher's tag does not verify under a different key,
  \<^verbatim>\<open>decryptPrivateKey\<close> with the second passphrase, on what \<^verbatim>\<open>encryptPrivateKey\<close> returned
  for the first, fails with the \<^verbatim>\<open>OperationError\<close> of the AES-GCM tag check (the signal of
  a failed authentication) and returns no key.
\<close>

theorem wrong_passphrase_rejected:
  assumes "kdf_length_ok P" and "rejects_other_keys P" and "valid_private_key P priv"
    and "pbkdf2_sha256 P (TextEncoder_encode p1) (fst (getRandomValues 16 g)) 100000 256
         \<noteq> pbkdf2_sha256 P (TextEncoder_encode p2) (fst (getRandomValues 16 g)) 100000 256"
  shows "\<exists>s g'. encryptPrivateKey P priv p1 g = (Inr s, g')
           \<and> decryptPrivateKey P (encryptedKey s) (salt s) (sealed_private_key.iv s) p2
               = Inl OperationError"
proof -
  let ?salt = "map g [0..<16]" and ?n = "map (\<lambda>i. g (i + 16)) [0..<12]"
  let ?k1 = "pbkdf2_sha256 P (TextEncoder_encode p1) ?salt 100000 256"
  let ?k2 = "pbkdf2_sha256 P (TextEncoder_encode p2) ?salt 100000 256"
  have v: "ktype priv = Private" "algorithm priv = RSA_OAEP" "extractable priv"
    using assms(3) by (simp_all add: valid_private_key_def)
  have "?k1 \<noteq> ?k2" using assms(4) by (simp add: getRandomValues_def)
  moreover have "length ?k1 = 32" "length ?k2 = 32"
    using assms(1) by (simp_all add: kdf_length_ok_def)
  ultimately have rej: "aes_gcm_decrypt P ?k2 ?n (aes_gcm_encrypt P ?k1 ?n (material priv)) = None"
    using assms(2) by (simp add: rejects_other_keys_def)
  show ?thesis
    unfolding seal_eq [OF assms(1) v(3) v(1) v(2)]
    by (simp add: unseal_eq [OF assms(1)] rej del: map_map)
qed

theorem wrong_passphrase_rejected_witness:
  "kdf_length_ok toy_provider \<and> rejects_other_keys toy_provider
   \<and> valid_private_key toy_provider toy_private_key
   \<and> (\<exists>s g'. encryptPrivateKey toy_provider toy_private_key [97] toy_rng = (Inr s, g')
          \<and> decryptPrivateKey toy_provider (encryptedKey s) (salt s) (sealed_private_key.iv s)
               [98] = Inl OperationError)"
  using wrong_passphrase_rejected [OF toy_kdf toy_rejects toy_private_valid toy_keys_differ]
    toy_kdf toy_rejects toy_private_valid
  by simp

text \<open>
  The claim as stated fails for distinct passphrases with the same UTF-8 encoding: the
  one-unit strings U+D800 and U+DC00 are both encoded as U+FFFD, so a key sealed under the
  first is unsealed by the second.
\<close>

theorem wrong_passphrase_counterexample:
  "[0xD800 :: code_unit] \<noteq> [0xDC00]
   \<and> fst (encryptPrivateKey toy_provider toy_private_key [0xD800] toy_rng) = Inr toy_sealed
   \<and> decryptPrivateKey toy_provider (encryptedKey toy_sealed) (salt toy_sealed)
        (sealed_private_key.iv toy_sealed) [0xDC00] = Inr toy_private_key"
  using toy_sealed_eq toy_unseal
  by (simp add: lone_surrogates_unseal_alike [symmetric])

section \<open>Key wrapper\<close>

text \<open>
  C4. For every file key and every matching RSA-OAEP key pair whose public key may wrap
  and whose private key may unwrap, \<^verbatim>\<open>wrapSymmetricKey\<close> succeeds and
  \<^verbatim>\<open>unwrapSymmetricKey\<close> of its result yields a key equal to the file key.
\<close>

theorem wrap_unwrap_roundtrip:
  assumes "matching_keys P (material pub) (material priv)"
    and "ktype pub = Public" and "algorithm pub = RSA_OAEP" and "WrapKey \<in> usages pub"
    and "ktype priv = Private" and "algorithm priv = RSA_OAEP" and "UnwrapKey \<in> usages priv"
    and "valid_file_key fek"
  shows "\<exists>w g'. wrapSymmetricKey P fek pub g = (Inr w, g')
           \<and> unwrapSymmetricKey P w priv = Inr fek"
proof -
  let ?seed = "map g [0..<32]"
  have f: "ktype fek = Secret" "algorithm fek = AES_GCM" "extractable fek"
      "usages fek = {Encrypt, Decrypt}" "length (material fek) = 32"
    using assms(8) by (simp_all add: valid_file_key_def)
  obtain c where c: "rsa_oaep_encrypt P (material pub) ?seed (material fek) = Some c"
      "rsa_oaep_decrypt P (material priv) c = Some (material fek)"
    using assms(1) f(5) unfolding matching_keys_def
    by (metis length_map length_upt diff_zero)
  have wrap: "wrapSymmetricKey P fek pub g = (Inr (base64_encode (map unat c)), \<lambda>i. g (i + 32))"
    by (simp add: wrapSymmetricKey_def subtle_wrapKey_def subtle_exportKey_def assms f
        getRandomValues_def c encode_bytes)
  have imp: "subtle_importKey P Raw (material fek) AES_GCM True {Encrypt, Decrypt} = Inr fek"
    using f by (simp add: subtle_importKey_def)
  have "unwrapSymmetricKey P (base64_encode (map unat c)) priv = Inr fek"
    unfolding unwrapSymmetricKey_def decode_await
    by (simp add: subtle_unwrapKey_def assms c await_def imp)
  then show ?thesis unfolding wrap by simp
qed

theorem wrap_unwrap_roundtrip_witness:
  "matching_keys toy_provider (material toy_public_key) (material toy_private_key)
   \<and> valid_file_key toy_file_key
   \<and> (\<exists>w g'. wrapSymmetricKey toy_provider toy_file_key toy_public_key toy_rng = (Inr w, g')
          \<and> unwrapSymmetricKey toy_provider w toy_private_key = Inr toy_file_key)"
proof -
  have m: "matching_keys toy_provider (material toy_public_key) (material toy_private_key)"
    using toy_matching by (simp add: toy_public_key_def toy_private_key_def)
  show ?thesis
    using wrap_unwrap_roundtrip [OF m _ _ _ _ _ _ toy_file_key_valid,
        of toy_rng] m toy_file_key_valid
    by (simp add: toy_public_key_def toy_private_key_def)
qed

section \<open>Error signals of the download flow\<close>




text \<open>
  C8, as amended. When the unseal of the private key rejects the passphrase,
  \<^verbatim>\<open>handleDecrypt\<close> fails with that error (as mapped by its \<^verbatim>\<open>catch\<close> block) after the
  key query and the unseal only: no blob is downloaded, no key unwrapped, no file
  decrypted. In every run the steps reached are an initial part of query, unseal,
  download, unwrap, decrypt, and a download happens only after the unseal has returned a
  key.
\<close>

theorem unseal_precedes_blob_access:
  "(user_keys_row env = Inr (Some kd)
      \<and> decryptPrivateKey P (encryptedKey kd) (salt kd) (sealed_private_key.iv kd) pw = Inl e
    \<longrightarrow> handleDecrypt P env (Some u) (Some file) pw
          = (Inl (handleDecrypt_catch
                    (Dom e (dom_message P
                       (UnsealCall (encryptedKey kd) (salt kd) (sealed_private_key.iv kd) pw)))),
             [QueryUserKeys, UnsealPrivateKey]))
   \<and> (\<exists>n. snd (handleDecrypt P env usr sel pw) =
          take n [QueryUserKeys, UnsealPrivateKey, DownloadBlob, UnwrapFileKey, DecryptBlob])
   \<and> (DownloadBlob \<in> set (snd (handleDecrypt P env usr sel pw))
    \<longrightarrow> (\<exists>kd' k. user_keys_row env = Inr (Some kd')
           \<and> decryptPrivateKey P (encryptedKey kd') (salt kd') (sealed_private_key.iv kd') pw
                = Inr k))"
proof (intro conjI impI)
  assume "user_keys_row env = Inr (Some kd)
      \<and> decryptPrivateKey P (encryptedKey kd) (salt kd) (sealed_private_key.iv kd) pw = Inl e"
  then show "handleDecrypt P env (Some u) (Some file) pw
          = (Inl (handleDecrypt_catch
                    (Dom e (dom_message P
                       (UnsealCall (encryptedKey kd) (salt kd) (sealed_private_key.iv kd) pw)))),
             [QueryUserKeys, UnsealPrivateKey])"
    by (simp add: handleDecrypt_def handleDecrypt_try_def)
next
  show "\<exists>n. snd (handleDecrypt P env usr sel pw) =
          take n [QueryUserKeys, UnsealPrivateKey, DownloadBlob, UnwrapFileKey, DecryptBlob]"
  proof (cases "\<exists>u file. usr = Some u \<and> sel = Some file")
    case True
    then show ?thesis using try_prefix by (auto simp: handleDecrypt_trace)
  next
    case False
    then have "snd (handleDecrypt P env usr sel pw) = []"
      by (auto simp: handleDecrypt_trace split: option.splits)
    then show ?thesis by (intro exI [of _ 0]) simp
  qed
next
  assume "DownloadBlob \<in> set (snd (handleDecrypt P env usr sel pw))"
  then show "\<exists>kd' k. user_keys_row env = Inr (Some kd')
           \<and> decryptPrivateKey P (encryptedKey kd') (salt kd') (sealed_private_key.iv kd') pw
                = Inr k"
    by (auto simp: handleDecrypt_trace split: option.splits dest: try_download_after_unseal)
qed

theorem unseal_precedes_blob_access_witness:
  "user_keys_row toy_env = Inr (Some toy_sealed)
   \<and> decryptPrivateKey toy_provider (encryptedKey toy_sealed) (salt toy_sealed)
        (sealed_private_key.iv toy_sealed) [98] = Inl OperationError
   \<and> handleDecrypt toy_provider toy_env (Some ''u'') (Some toy_file) [98] =
       (Inl (Dom OperationError ''The operation failed for an operation-specific reason''),
        [QueryUserKeys, UnsealPrivateKey])
   \<and> DownloadBlob \<in> set (snd (handleDecrypt toy_provider toy_env (Some ''u'') (Some toy_file)
        [0xD800]))
   \<and> decryptPrivateKey toy_provider (encryptedKey toy_sealed) (salt toy_sealed)
        (sealed_private_key.iv toy_sealed) [0xD800] = Inr toy_private_key"
proof -
  have e: "user_keys_row toy_env = Inr (Some toy_sealed)"
    by (simp add: toy_env_def)
  have d: "DownloadBlob \<in> set (snd (handleDecrypt toy_provider toy_env (Some ''u'')
      (Some toy_file) [0xD800]))"
    by (simp add: toy_run)
  have m: "handleDecrypt_catch
      (Dom OperationError (dom_message toy_provider
         (UnsealCall (encryptedKey toy_sealed) (salt toy_sealed)
            (sealed_private_key.iv toy_sealed) [98])))
      = Dom OperationError ''The operation failed for an operation-specific reason''"
    by (simp add: toy_provider_def handleDecrypt_catch_def toy_messages_not_caught)
  show ?thesis
    using unseal_precedes_blob_access [of toy_env toy_sealed toy_provider "[98]" OperationError
        "''u''" toy_file "Some ''u''" "Some toy_file"]
      e toy_unseal_wrong d toy_unseal m
    by simp
qed

text \<open>
  The claim as stated fails for a wrong passphrase that the unseal accepts: the key was
  sealed under the one-unit passphrase U+D800, and the different passphrase U+DC00, which
  has the same UTF-8 encoding, passes the unseal; the blob is downloaded and decrypted.
\<close>

theorem unseal_precedes_blob_access_counterexample:
  "[0xDC00 :: code_unit] \<noteq> [0xD800]
   \<and> fst (encryptPrivateKey toy_provider toy_private_key [0xD800] toy_rng) = Inr toy_sealed
   \<and> user_keys_row toy_env_intact = Inr (Some toy_sealed)
   \<and> handleDecrypt toy_provider toy_env_intact (Some ''u'') (Some toy_file) [0xDC00] =
       (Inr (Downloaded [104, 105]),
        [QueryUserKeys, UnsealPrivateKey, DownloadBlob, UnwrapFileKey, DecryptBlob])"
  using toy_sealed_eq toy_run_intact [of "''u''"]
  by (simp add: toy_env_intact_def)

section \<open>Capabilities of the keys handed out\<close>

text \<open>
  C9. \<^verbatim>\<open>generateUserKeypair\<close> always returns a pair whose public key is limited to encrypt
  and wrapKey and whose private key is limited to decrypt and unwrapKey; every key
  returned by \<^verbatim>\<open>importPublicKey\<close> is limited to encrypt and wrapKey; every key returned by
  \<^verbatim>\<open>importPrivateKey\<close> or \<^verbatim>\<open>decryptPrivateKey\<close> is limited to decrypt and unwrapKey. A key
  limited to one role is refused by the operations of the other.
\<close>

theorem capability_scoping:
  "(\<exists>kp g'. generateUserKeypair P g = (Inr kp, g')
       \<and> encrypt_only (publicKey kp) \<and> decrypt_only (privateKey kp))
   \<and> (importPublicKey P t = Inr k1 \<longrightarrow> encrypt_only k1)
   \<and> (importPrivateKey P t = Inr k2 \<longrightarrow> decrypt_only k2)
   \<and> (decryptPrivateKey P ek st it pw = Inr k3 \<longrightarrow> decrypt_only k3)
   \<and> (encrypt_only k \<longrightarrow>
        subtle_decrypt P prm k d = Inl InvalidAccessError
        \<and> subtle_unwrapKey P fmt d k prm alg ext us = Inl InvalidAccessError)
   \<and> (decrypt_only k \<longrightarrow>
        subtle_encrypt P prm k d g = (Inl InvalidAccessError, g)
        \<and> subtle_wrapKey P fmt key k prm g = (Inl InvalidAccessError, g))"
proof (intro conjI impI)
  show "\<exists>kp g'. generateUserKeypair P g = (Inr kp, g')
       \<and> encrypt_only (publicKey kp) \<and> decrypt_only (privateKey kp)"
    using generate_pair [of P g] by (auto simp: encrypt_only_def decrypt_only_def)
next
  assume "importPublicKey P t = Inr k1"
  then show "encrypt_only k1"
    by (auto simp: importPublicKey_def encrypt_only_def dest!: await_Inr import_public_role)
next
  assume "importPrivateKey P t = Inr k2"
  then show "decrypt_only k2"
    by (auto simp: importPrivateKey_def decrypt_only_def dest!: await_Inr import_private_role)
next
  assume "decryptPrivateKey P ek st it pw = Inr k3"
  then show "decrypt_only k3"
    by (auto simp: decryptPrivateKey_def decrypt_only_def dest!: await_Inr import_private_role)
next
  assume "encrypt_only k"
  then show "subtle_decrypt P prm k d = Inl InvalidAccessError"
    and "subtle_unwrapKey P fmt d k prm alg ext us = Inl InvalidAccessError"
    by (rule encrypt_only_cannot_decrypt)+
next
  assume "decrypt_only k"
  then show "subtle_encrypt P prm k d g = (Inl InvalidAccessError, g)"
    and "subtle_wrapKey P fmt key k prm g = (Inl InvalidAccessError, g)"
    by (rule decrypt_only_cannot_encrypt)+
qed

theorem capability_scoping_witness:
  "(\<exists>kp g'. generateUserKeypair toy_provider toy_rng = (Inr kp, g')
       \<and> encrypt_only (publicKey kp) \<and> decrypt_only (privateKey kp))
   \<and> importPublicKey toy_provider [66, 119, 61, 61] = Inr toy_public_key
   \<and> encrypt_only toy_public_key
   \<and> importPrivateKey toy_provider [66, 119, 61, 61] = Inr toy_private_key
   \<and> decrypt_only toy_private_key
   \<and> decryptPrivateKey toy_provider (encryptedKey toy_sealed) (salt toy_sealed)
        (sealed_private_key.iv toy_sealed) [0xD800] = Inr toy_private_key
   \<and> subtle_decrypt toy_provider RsaOaepParams toy_public_key [1] = Inl InvalidAccessError
   \<and> subtle_encrypt toy_provider RsaOaepParams toy_private_key [1] toy_rng
        = (Inl InvalidAccessError, toy_rng)"
proof -
  have d: "base64ToArrayBuffer [66, 119, 61, 61] = Inr [7]" by code_simp
  have pub: "importPublicKey toy_provider [66, 119, 61, 61] = Inr toy_public_key"
    by (simp add: importPublicKey_def d await_def subtle_importKey_def toy_provider_def
        toy_public_key_def)
  have priv: "importPrivateKey toy_provider [66, 119, 61, 61] = Inr toy_private_key"
    by (simp add: importPrivateKey_def d await_def subtle_importKey_def toy_provider_def
        toy_private_key_def)
  note main = capability_scoping [of toy_provider toy_rng "[66, 119, 61, 61]" toy_public_key
        toy_private_key "encryptedKey toy_sealed" "salt toy_sealed"
        "sealed_private_key.iv toy_sealed" "[0xD800]" toy_private_key]
  have e: "encrypt_only toy_public_key" using main pub by blast
  have dd: "decrypt_only toy_private_key" using main priv by blast
  show ?thesis
    using main pub priv toy_unseal e dd
      capability_scoping [of toy_provider toy_rng "[]" toy_public_key toy_private_key
        "[]" "[]" "[]" "[]" toy_private_key toy_public_key RsaOaepParams "[1]"]
      capability_scoping [of toy_provider toy_rng "[]" toy_public_key toy_private_key
        "[]" "[]" "[]" "[]" toy_private_key toy_private_key RsaOaepParams "[1]"]
    by simp
qed

section \<open>The passphrase-derived key\<close>

text \<open>
  C10. For every passphrase and salt, \<^verbatim>\<open>deriveKeyFromPassphrase\<close> returns a secret AES-GCM
  key that is not extractable and whose usages are encrypt and decrypt only: every export
  of it is refused with \<^verbatim>\<open>InvalidAccessError\<close>, and so is every attempt to wrap it. Sealing
  and unsealing obtain their key from this function alone.
\<close>

theorem derived_key_not_extractable:
  assumes "kdf_length_ok P"
  shows "\<exists>k. deriveKeyFromPassphrase P pw s = Inr k
           \<and> \<not> extractable k \<and> ktype k = Secret \<and> algorithm k = AES_GCM
           \<and> usages k = {Encrypt, Decrypt}
           \<and> (\<forall>fmt. subtle_exportKey fmt k = Inl InvalidAccessError)
           \<and> (\<forall>fmt wk prm g. \<exists>e. subtle_wrapKey P fmt k wk prm g = (Inl e, g))"
  unfolding derive_eq [OF assms]
  by (simp add: subtle_exportKey_def subtle_wrapKey_def)

theorem derived_key_not_extractable_witness:
  "kdf_length_ok toy_provider
   \<and> (\<exists>k. deriveKeyFromPassphrase toy_provider [104, 105] [1, 2, 3] = Inr k
          \<and> \<not> extractable k \<and> usages k = {Encrypt, Decrypt}
          \<and> subtle_exportKey Raw k = Inl InvalidAccessError)"
  using derived_key_not_extractable [OF toy_kdf, of "[104, 105]" "[1, 2, 3]"] toy_kdf
  by auto

end
